theory Spec2Isabelle
  imports Main "HOL-Library.AList"
begin

section \<open>The call session manager of \<^verbatim>\<open>src/index.js\<close> (lines 1-507)\<close>

text \<open>
  Lines 1-507 are the running server; the rest of the file is an older copy
  of it, commented out, and a separate room-based server.

  The server keeps six process-wide tables and reacts to socket events, to the
  per-call 60 s timer and to the 5 s sweeper. Every handler runs to completion
  before the next one starts, so a handler is a function from state to state.

  Conventions of the embedding:
  \<^item> a socket is identified by its transport id (\<open>socket.id\<close>), a natural number;
    its mutable property \<open>socket.userId\<close> and its connection state live in the
    table \<open>sockets\<close>;
  \<^item> \<open>outbox s k\<close> lists, oldest first, every event the server has emitted on
    socket \<open>k\<close> (each call of \<open>sock.emit\<close>);
  \<^item> \<open>activeCalls\<close> and \<open>callStates\<close> are JavaScript \<open>Map\<close>s that the code
    iterates over: association lists in insertion order with distinct keys
    (\<open>AList.update\<close> keeps the position of an existing key and appends a new
    one, as \<open>Map.set\<close> does). The object \<open>participantSockets\<close> is an association
    list as well; every loop over it emits one and the same event to each
    value, so the order of its keys does not show in any outbox;
  \<^item> the tables that are only looked up are maps;
  \<^item> a payload field that a handler tests for presence is a \<open>string option\<close>
    (\<open>None\<close> is a missing field), any other field is a string;
  \<^item> \<open>participantSockets\<close> and \<open>iceCandidates\<close> are plain objects indexed by user
    id. The definitions give their own properties; at an id that names a
    member of \<open>Object.prototype\<close> the source differs (a read finds the inherited
    member, an assignment to \<open>__proto__\<close> replaces the prototype and adds no
    key). Such ids are excluded by a hypothesis (\<open>ordinary_id\<close>, or the id
    \<open>__proto__\<close> alone where only an assignment is involved) in the general
    statements about \<open>register\<close> and about a repeated \<open>call_accept\<close>;
  \<^item> \<open>Date.now()\<close> is an argument of the events that read the clock
    (milliseconds, an integer).
\<close>

type_synonym sid = nat

datatype conn = Fresh | Open | Closed

record sock =
  userId :: "string option"
  conn :: conn

record init_data =
  d_callId :: "string option"
  d_callerId :: "string option"
  d_receiverIds :: "string list option"
  d_callType :: string
  d_extraMeta :: string

text \<open>Server-to-client events, with their payload fields in source order.\<close>

datatype out =
    Registered
  | ErrorMsg string
  | ForceDisconnect string
  | IncomingCall init_data
  | CallRinging string string
  | CallBusy string string
  | CallAccepted string string
  | CallRejected string string
  | CallTimeout string string
  | CallEnded string string string
  | StartSignaling string
  | OutOffer string string string
  | OutAnswer string string string
  | OutIce string string "string option" string

record presence =
  status :: string
  currentCallId :: "string option"

record call =
  callId :: string
  callerId :: string
  receiverIds :: "string list"
  callType :: string
  participants :: "string list"
  participantSockets :: "(string \<times> sid) list"
  call_status :: string
  extraMeta :: string

record ice =
  ice_from :: string
  candidate :: string
  timestamp :: int

record callState =
  cs_status :: string
  cs_callerId :: string
  cs_receiverId :: string
  offerAttempts :: nat
  lastOfferTime :: int
  iceCandidates :: "string \<Rightarrow> ice list option"

text \<open>What the closure of the no-answer timer captured in \<open>call_initiate\<close>.\<close>

record timer =
  t_callerSocket :: sid
  t_callerId :: string
  t_receiverId :: string

record state =
  sockets :: "sid \<Rightarrow> sock"
  outbox :: "sid \<Rightarrow> out list"
  connectedUsers :: "string \<Rightarrow> sid option"
  activeCalls :: "(string \<times> call) list"
  pendingSignals :: "string \<Rightarrow> out list option"
  userStatus :: "string \<Rightarrow> presence option"
  callTimeouts :: "string \<Rightarrow> timer option"
  callStates :: "(string \<times> callState) list"

definition init :: state where
  "init = \<lparr>sockets = (\<lambda>_. \<lparr>userId = None, conn = Fresh\<rparr>), outbox = (\<lambda>_. []),
            connectedUsers = (\<lambda>_. None), activeCalls = [], pendingSignals = (\<lambda>_. None),
            userStatus = (\<lambda>_. None), callTimeouts = (\<lambda>_. None), callStates = []\<rparr>"

subsection \<open>Utilities (lines 23-72)\<close>

text \<open>JavaScript truthiness of an optional string: present and not empty.\<close>

fun truthy :: "string option \<Rightarrow> bool" where
  "truthy None = False"
| "truthy (Some u) = (u \<noteq> [])"

definition emit :: "sid \<Rightarrow> out \<Rightarrow> state \<Rightarrow> state" where
  "emit k ev s = s\<lparr>outbox := (outbox s)(k := outbox s k @ [ev])\<rparr>"

definition getUserSocket :: "string \<Rightarrow> state \<Rightarrow> sid option" where
  "getUserSocket u s = connectedUsers s u"

definition getUserStatus :: "string \<Rightarrow> state \<Rightarrow> presence" where
  "getUserStatus u s =
     (case userStatus s u of
        None \<Rightarrow> \<lparr>status = ''available'', currentCallId = None\<rparr>
      | Some p \<Rightarrow> p)"

definition setUserStatus :: "string \<Rightarrow> string \<Rightarrow> string option \<Rightarrow> state \<Rightarrow> state" where
  "setUserStatus u st c s =
     s\<lparr>userStatus := (userStatus s)(u \<mapsto> \<lparr>status = st, currentCallId = c\<rparr>)\<rparr>"

definition queueSignal :: "string \<Rightarrow> out \<Rightarrow> state \<Rightarrow> state" where
  "queueSignal u ev s =
     s\<lparr>pendingSignals := (pendingSignals s)
          (u \<mapsto> (case pendingSignals s u of None \<Rightarrow> [] | Some q \<Rightarrow> q) @ [ev])\<rparr>"

definition deliverPendingSignals :: "string \<Rightarrow> sid \<Rightarrow> state \<Rightarrow> state" where
  "deliverPendingSignals u k s =
     (case pendingSignals s u of
        None \<Rightarrow> s
      | Some q \<Rightarrow> (fold (emit k) q s)\<lparr>pendingSignals := (pendingSignals s)(u := None)\<rparr>)"

definition clearCallTimeout :: "string \<Rightarrow> state \<Rightarrow> state" where
  "clearCallTimeout c s = s\<lparr>callTimeouts := (callTimeouts s)(c := None)\<rparr>"

definition setCallTimeout :: "string \<Rightarrow> timer \<Rightarrow> state \<Rightarrow> state" where
  "setCallTimeout c tm s =
     (let s1 = clearCallTimeout c s in s1\<lparr>callTimeouts := (callTimeouts s1)(c \<mapsto> tm)\<rparr>)"

text \<open>
  The two loops over \<open>participantSockets\<close>: \<open>Object.values(...).forEach\<close> emits to
  every cached socket, \<open>Object.entries(...).forEach\<close> with the test \<open>uid !== u\<close>
  skips the entries stored under \<open>u\<close>.
\<close>

definition emit_all :: "out \<Rightarrow> (string \<times> sid) list \<Rightarrow> state \<Rightarrow> state" where
  "emit_all ev ps s = fold (\<lambda>p. emit (snd p) ev) ps s"

definition emit_others :: "string \<Rightarrow> out \<Rightarrow> (string \<times> sid) list \<Rightarrow> state \<Rightarrow> state" where
  "emit_others u ev ps s = fold (\<lambda>p st. if fst p \<noteq> u then emit (snd p) ev st else st) ps s"

definition delete_call :: "string \<Rightarrow> state \<Rightarrow> state" where
  "delete_call c s =
     s\<lparr>activeCalls := AList.delete c (activeCalls s), callStates := AList.delete c (callStates s)\<rparr>"

subsection \<open>disconnect (lines 425-450)\<close>

definition disconnect_call :: "string \<Rightarrow> string \<times> call \<Rightarrow> state \<Rightarrow> state" where
  "disconnect_call u e s =
     (case e of (cid, cl) \<Rightarrow>
        if u \<in> set (participants cl) then
          let cl' = cl\<lparr>participants := filter (\<lambda>i. i \<noteq> u) (participants cl),
                       participantSockets := AList.delete u (participantSockets cl)\<rparr>;
              s1 = s\<lparr>activeCalls := AList.update cid cl' (activeCalls s)\<rparr>;
              s2 = emit_all (CallEnded cid u ''Participant disconnected'') (participantSockets cl') s1;
              s3 = setUserStatus u ''offline'' None s2
          in if participants cl' = [] then delete_call cid s3 else s3
        else s)"

definition on_disconnect :: "sid \<Rightarrow> state \<Rightarrow> state" where
  "on_disconnect k s =
     (let u = (if truthy (userId (sockets s k)) then the (userId (sockets s k)) else ''unknown'');
          s1 = s\<lparr>connectedUsers := (connectedUsers s)(u := None)\<rparr>
      in fold (disconnect_call u) (activeCalls s1) s1)"

text \<open>
  \<open>socket.disconnect()\<close> and a close of the transport both end in socket.io's
  \<open>_onclose\<close>: nothing happens on a socket that is not connected; otherwise the
  socket is marked disconnected and its \<open>disconnect\<close> handler runs at once.
\<close>

definition close_socket :: "sid \<Rightarrow> state \<Rightarrow> state" where
  "close_socket k s =
     (if conn (sockets s k) = Open
      then on_disconnect k (s\<lparr>sockets := (sockets s)(k := (sockets s k)\<lparr>conn := Closed\<rparr>)\<rparr>)
      else s)"

subsection \<open>register and user\_status (lines 79-113)\<close>

definition attach_socket :: "string \<Rightarrow> sid \<Rightarrow> string \<times> call \<Rightarrow> string \<times> call" where
  "attach_socket u k e =
     (case e of (cid, cl) \<Rightarrow>
        if u \<in> set (participants cl) \<and> map_of (participantSockets cl) u = None
        then (cid, cl\<lparr>participantSockets := AList.update u k (participantSockets cl)\<rparr>)
        else (cid, cl))"

text \<open>Lines 85-90: a socket bound to the user id under another transport id is closed.\<close>

definition replace_existing :: "string \<Rightarrow> sid \<Rightarrow> state \<Rightarrow> state" where
  "replace_existing u k s =
     (case getUserSocket u s of
        None \<Rightarrow> s
      | Some existingSocket \<Rightarrow>
          if existingSocket \<noteq> k
          then close_socket existingSocket
                 (emit existingSocket (ForceDisconnect ''New connection established'') s)
          else s)"

definition register :: "sid \<Rightarrow> string option \<Rightarrow> state \<Rightarrow> state" where
  "register k uo s =
     (if \<not> truthy uo then emit k (ErrorMsg ''Invalid user ID'') s
      else
        let u = the uo;
            s1 = replace_existing u k s;
            s2 = s1\<lparr>connectedUsers := (connectedUsers s1)(u \<mapsto> k)\<rparr>;
            s3 = s2\<lparr>sockets := (sockets s2)(k := (sockets s2 k)\<lparr>userId := Some u\<rparr>)\<rparr>;
            s4 = setUserStatus u ''available'' None s3;
            s5 = emit k Registered s4;
            s6 = s5\<lparr>activeCalls := map (attach_socket u k) (activeCalls s5)\<rparr>
        in deliverPendingSignals u k s6)"

definition user_status :: "sid \<Rightarrow> string option \<Rightarrow> string \<Rightarrow> state \<Rightarrow> state" where
  "user_status k uo st s =
     (if truthy uo \<and> userId (sockets s k) = uo then setUserStatus (the uo) st None s else s)"

subsection \<open>call\_initiate and its no-answer timer (lines 116-198)\<close>

definition new_call ::
  "init_data \<Rightarrow> string \<Rightarrow> string \<Rightarrow> string list \<Rightarrow> string \<Rightarrow> sid \<Rightarrow> call" where
  "new_call d c a rs r ks =
     \<lparr>callId = c, callerId = a, receiverIds = rs, callType = d_callType d,
      participants = [a, r], participantSockets = [(a, ks)],
      call_status = ''initiated'', extraMeta = d_extraMeta d\<rparr>"

definition new_callState :: "string \<Rightarrow> string \<Rightarrow> int \<Rightarrow> callState" where
  "new_callState a r now =
     \<lparr>cs_status = ''initiated'', cs_callerId = a, cs_receiverId = r, offerAttempts = 0,
      lastOfferTime = now, iceCandidates = [a \<mapsto> [], r \<mapsto> []]\<rparr>"

definition call_initiate :: "sid \<Rightarrow> init_data \<Rightarrow> int \<Rightarrow> state \<Rightarrow> state" where
  "call_initiate k d now s =
     (if \<not> truthy (d_callId d) \<or> \<not> truthy (d_callerId d) \<or> d_receiverIds d = None
         \<or> d_receiverIds d = Some []
      then emit k (ErrorMsg ''Invalid call data'') s
      else
        let c = the (d_callId d); a = the (d_callerId d); rs = the (d_receiverIds d) in
        (case getUserSocket a s of
          None \<Rightarrow> emit k (ErrorMsg ''Caller not connected'') s
        | Some callerSocket \<Rightarrow>
            let r = hd rs in
            if status (getUserStatus r s) = ''busy''
            then emit callerSocket (CallBusy c r) s
            else
              let s1 = s\<lparr>activeCalls :=
                          AList.update c (new_call d c a rs r callerSocket)
                            (AList.delete c (activeCalls s))\<rparr>;
                  s2 = s1\<lparr>callStates := AList.update c (new_callState a r now) (callStates s1)\<rparr>;
                  s3 = setUserStatus a ''busy'' (Some c) s2;
                  s4 = setCallTimeout c
                         \<lparr>t_callerSocket = callerSocket, t_callerId = a, t_receiverId = r\<rparr> s3
              in (case getUserSocket r s4 of
                    Some receiverSocket \<Rightarrow>
                      emit callerSocket (CallRinging c r)
                        (emit receiverSocket (IncomingCall d)
                           (setUserStatus r ''ringing'' (Some c) s4))
                  | None \<Rightarrow> queueSignal r (IncomingCall d) s4)))"

definition timeout_fire :: "string \<Rightarrow> state \<Rightarrow> state" where
  "timeout_fire c s =
     (case callTimeouts s c of
        None \<Rightarrow> s
      | Some tm \<Rightarrow>
          let s1 = s\<lparr>callTimeouts := (callTimeouts s)(c := None)\<rparr> in
          (case map_of (activeCalls s1) c of
             None \<Rightarrow> s1
           | Some cl \<Rightarrow>
               if call_status cl = ''initiated'' then
                 let s2 = emit (t_callerSocket tm) (CallTimeout c ''No answer'') s1;
                     s3 = emit_all (CallEnded c ''system'' ''Timeout'') (participantSockets cl) s2;
                     s4 = delete_call c s3;
                     s5 = setUserStatus (t_callerId tm) ''available'' None s4
                 in setUserStatus (t_receiverId tm) ''available'' None s5
               else s1))"

subsection \<open>call\_accept and call\_reject (lines 201-267)\<close>

definition set_cs_status :: "string \<Rightarrow> string \<Rightarrow> state \<Rightarrow> state" where
  "set_cs_status c st s =
     (case map_of (callStates s) c of
        None \<Rightarrow> s
      | Some x \<Rightarrow> s\<lparr>callStates := AList.update c (x\<lparr>cs_status := st\<rparr>) (callStates s)\<rparr>)"

definition call_accept :: "sid \<Rightarrow> string \<Rightarrow> string \<Rightarrow> state \<Rightarrow> state" where
  "call_accept k c r s =
     (case map_of (activeCalls s) c of
        None \<Rightarrow> emit k (ErrorMsg ''Call not found'') s
      | Some cl \<Rightarrow>
          (case getUserSocket r s of
             None \<Rightarrow> emit k (ErrorMsg ''Receiver not connected'') s
           | Some receiverSocket \<Rightarrow>
               if r \<notin> set (participants cl) then emit k (ErrorMsg ''Invalid receiver'') s
               else
                 let s1 = clearCallTimeout c s;
                     cl' = cl\<lparr>participantSockets :=
                                AList.update r receiverSocket (participantSockets cl),
                              call_status := ''active''\<rparr>;
                     s2 = s1\<lparr>activeCalls := AList.update c cl' (activeCalls s1)\<rparr>;
                     s3 = setUserStatus r ''in-call'' (Some c) s2;
                     s4 = setUserStatus (callerId cl) ''in-call'' (Some c) s3;
                     s5 = set_cs_status c ''active'' s4;
                     s6 = emit_others r (CallAccepted c r) (participantSockets cl') s5
                 in emit_all (StartSignaling c) (participantSockets cl') s6))"

definition call_reject :: "sid \<Rightarrow> string \<Rightarrow> string \<Rightarrow> state \<Rightarrow> state" where
  "call_reject k c u s =
     (case map_of (activeCalls s) c of
        None \<Rightarrow> s
      | Some cl \<Rightarrow>
          let s1 = clearCallTimeout c s;
              s2 = setUserStatus (callerId cl) ''available'' None s1;
              s3 = setUserStatus u ''available'' None s2;
              s4 = (case getUserSocket (callerId cl) s3 of
                      None \<Rightarrow> s3
                    | Some callerSocket \<Rightarrow> emit callerSocket (CallRejected c u) s3)
          in delete_call c s4)"

subsection \<open>Signal routing (lines 270-349)\<close>

text \<open>
  \<open>call.participantSockets[to] || getUserSocket(to)\<close>, then the test
  \<open>targetSocket && targetSocket.userId === to\<close>: the result is the socket to
  forward to, or \<open>None\<close> when the event is queued instead.
\<close>

definition target_socket :: "call \<Rightarrow> string \<Rightarrow> state \<Rightarrow> sid option" where
  "target_socket cl t s =
     (case (case map_of (participantSockets cl) t of
              Some k \<Rightarrow> Some k
            | None \<Rightarrow> getUserSocket t s) of
        None \<Rightarrow> None
      | Some k \<Rightarrow> if userId (sockets s k) = Some t then Some k else None)"

definition webrtc_offer ::
  "sid \<Rightarrow> string \<Rightarrow> string \<Rightarrow> string \<Rightarrow> string \<Rightarrow> int \<Rightarrow> state \<Rightarrow> state" where
  "webrtc_offer k c frm t sdp now s =
     (case (map_of (activeCalls s) c, map_of (callStates s) c) of
        (Some cl, Some x) \<Rightarrow>
          let s1 = s\<lparr>callStates :=
                      AList.update c (x\<lparr>offerAttempts := offerAttempts x + 1,
                                        lastOfferTime := now\<rparr>) (callStates s)\<rparr>
          in if frm = t then s1
             else (case target_socket cl t s1 of
                     Some ts \<Rightarrow> emit ts (OutOffer c frm sdp) s1
                   | None \<Rightarrow> queueSignal t (OutOffer c frm sdp) s1)
      | _ \<Rightarrow> queueSignal t (OutOffer c frm sdp) s)"

definition webrtc_answer ::
  "sid \<Rightarrow> string \<Rightarrow> string \<Rightarrow> string \<Rightarrow> string \<Rightarrow> state \<Rightarrow> state" where
  "webrtc_answer k c frm t sdp s =
     (case (map_of (activeCalls s) c, map_of (callStates s) c) of
        (Some cl, Some x) \<Rightarrow>
          let s1 = s\<lparr>callStates := AList.update c (x\<lparr>offerAttempts := 0\<rparr>) (callStates s)\<rparr>
          in (case target_socket cl t s1 of
                Some ts \<Rightarrow> emit ts (OutAnswer c frm sdp) s1
              | None \<Rightarrow> queueSignal t (OutAnswer c frm sdp) s1)
      | _ \<Rightarrow> queueSignal t (OutAnswer c frm sdp) s)"

definition push_ice :: "string \<Rightarrow> ice \<Rightarrow> callState \<Rightarrow> callState" where
  "push_ice t e x =
     (case iceCandidates x t of
        None \<Rightarrow> x
      | Some b \<Rightarrow> x\<lparr>iceCandidates := (iceCandidates x)(t \<mapsto> b @ [e])\<rparr>)"

definition ice_candidate ::
  "sid \<Rightarrow> string \<Rightarrow> string \<Rightarrow> string \<Rightarrow> string \<Rightarrow> int \<Rightarrow> state \<Rightarrow> state" where
  "ice_candidate k c frm t cand now s =
     (case (map_of (activeCalls s) c, map_of (callStates s) c) of
        (Some cl, Some x) \<Rightarrow>
          let s1 = s\<lparr>callStates :=
                      AList.update c
                        (push_ice t \<lparr>ice_from = frm, candidate = cand, timestamp = now\<rparr> x)
                        (callStates s)\<rparr>
          in (case target_socket cl t s1 of
                Some ts \<Rightarrow> emit ts (OutIce c frm None cand) s1
              | None \<Rightarrow> queueSignal t (OutIce c frm (Some t) cand) s1)
      | _ \<Rightarrow> queueSignal t (OutIce c frm None cand) s)"

subsection \<open>call\_end and user\_ready (lines 352-423)\<close>

definition call_end :: "sid \<Rightarrow> string \<Rightarrow> string option \<Rightarrow> state \<Rightarrow> state" where
  "call_end k c uo s =
     (if \<not> truthy uo then s
      else
        let u = the uo in
        (case map_of (activeCalls s) c of
          None \<Rightarrow> s
        | Some cl \<Rightarrow>
            let s1 = clearCallTimeout c s;
                s2 = setUserStatus u ''available'' None s1;
                s3 = emit_others u (CallEnded c u ''User ended the call'') (participantSockets cl) s2;
                cl' = cl\<lparr>participants := filter (\<lambda>i. i \<noteq> u) (participants cl),
                         participantSockets := AList.delete u (participantSockets cl)\<rparr>;
                s4 = s3\<lparr>activeCalls := AList.update c cl' (activeCalls s3)\<rparr>
            in if participants cl' = [] then delete_call c s4 else s4))"

definition user_ready :: "sid \<Rightarrow> string \<Rightarrow> string \<Rightarrow> state \<Rightarrow> state" where
  "user_ready k c u s =
     (case map_of (activeCalls s) c of
        None \<Rightarrow> s
      | Some cl \<Rightarrow>
          let cl' = (case getUserSocket u s of
                       None \<Rightarrow> cl
                     | Some userSocket \<Rightarrow>
                         cl\<lparr>participantSockets :=
                              AList.update u userSocket (participantSockets cl)\<rparr>);
              s1 = s\<lparr>activeCalls := AList.update c cl' (activeCalls s)\<rparr>
          in if list_all (\<lambda>pid. map_of (participantSockets cl') pid \<noteq> None) (participants cl')
             then emit_all (StartSignaling c) (participantSockets cl') s1
             else s1)"

subsection \<open>The sweeper (lines 456-489)\<close>

definition trim_ice :: "int \<Rightarrow> callState \<Rightarrow> callState" where
  "trim_ice now x =
     x\<lparr>iceCandidates :=
         (\<lambda>u. map_option (filter (\<lambda>e. now - timestamp e < 60000)) (iceCandidates x u))\<rparr>"

definition sweep_call :: "int \<Rightarrow> string \<times> callState \<Rightarrow> state \<Rightarrow> state" where
  "sweep_call now e s =
     (case e of (cid, x) \<Rightarrow>
        let s1 =
              (if cs_status x = ''initiated'' \<and> offerAttempts x > 0
                  \<and> now - lastOfferTime x > 10000
               then
                 let s2 = (case getUserSocket (cs_callerId x) s of
                             None \<Rightarrow> s
                           | Some callerSocket \<Rightarrow>
                               emit callerSocket
                                 (CallTimeout cid ''No answer from receiver'') s);
                     s3 = delete_call cid s2;
                     s4 = setUserStatus (cs_callerId x) ''available'' None s3
                 in setUserStatus (cs_receiverId x) ''available'' None s4
               else s)
        in s1\<lparr>callStates :=
               map (\<lambda>p. if fst p = cid then (fst p, trim_ice now (snd p)) else p) (callStates s1)\<rparr>)"

definition sweep :: "int \<Rightarrow> state \<Rightarrow> state" where
  "sweep now s = fold (sweep_call now) (callStates s) s"

subsection \<open>Dispatch\<close>

datatype event =
    Register "string option"
  | UserStatus "string option" string
  | CallInitiate init_data
  | CallAccept string string
  | CallReject string string
  | WebrtcOffer string string string string
  | WebrtcAnswer string string string string
  | IceCandidate string string string string
  | CallEnd string "string option"
  | UserReady string string

fun handle :: "sid \<Rightarrow> int \<Rightarrow> event \<Rightarrow> state \<Rightarrow> state" where
  "handle k now (Register uo) s = register k uo s"
| "handle k now (UserStatus uo st) s = user_status k uo st s"
| "handle k now (CallInitiate d) s = call_initiate k d now s"
| "handle k now (CallAccept c r) s = call_accept k c r s"
| "handle k now (CallReject c u) s = call_reject k c u s"
| "handle k now (WebrtcOffer c frm t sdp) s = webrtc_offer k c frm t sdp now s"
| "handle k now (WebrtcAnswer c frm t sdp) s = webrtc_answer k c frm t sdp s"
| "handle k now (IceCandidate c frm t cand) s = ice_candidate k c frm t cand now s"
| "handle k now (CallEnd c uo) s = call_end k c uo s"
| "handle k now (UserReady c u) s = user_ready k c u s"

text \<open>
  What can happen to the server: a new socket connects, a connected socket
  delivers an event (at clock reading \<open>now\<close>), a connected socket closes, the
  no-answer timer of a call fires, the sweeper ticks. An input that cannot
  happen in the current state (an event on a socket that is not connected, a
  socket id used twice) leaves the state as it is.
\<close>

datatype input =
    Connection sid
  | Event sid int event
  | Close sid
  | Timeout string
  | Sweep int

fun step :: "state \<Rightarrow> input \<Rightarrow> state" where
  "step s (Connection k) =
     (if conn (sockets s k) = Fresh
      then s\<lparr>sockets := (sockets s)(k := \<lparr>userId = None, conn = Open\<rparr>)\<rparr>
      else s)"
| "step s (Event k now e) = (if conn (sockets s k) = Open then handle k now e s else s)"
| "step s (Close k) = close_socket k s"
| "step s (Timeout c) = timeout_fire c s"
| "step s (Sweep now) = sweep now s"

definition run :: "input list \<Rightarrow> state" where
  "run ins = foldl step init ins"

subsection \<open>Notions used in the statements\<close>

text \<open>How many keys of \<open>participantSockets\<close> hold socket \<open>k\<close>, all keys or all but \<open>u\<close>.\<close>

definition cached_on :: "sid \<Rightarrow> (string \<times> sid) list \<Rightarrow> nat" where
  "cached_on k ps = length (filter (\<lambda>p. snd p = k) ps)"

definition cached_on_others :: "string \<Rightarrow> sid \<Rightarrow> (string \<times> sid) list \<Rightarrow> nat" where
  "cached_on_others u k ps = length (filter (\<lambda>p. fst p \<noteq> u \<and> snd p = k) ps)"

text \<open>
  The property names every plain object inherits from \<open>Object.prototype\<close>. A
  read \<open>obj[id]\<close> at one of them yields the inherited member, which is truthy,
  when the object has no own property of that name; \<open>obj['__proto__'] = v\<close>
  calls the inherited setter. An id is ordinary when it is none of them: then
  \<open>obj[id]\<close> reads and writes an own property and nothing else.
\<close>

definition object_prototype_members :: "string list" where
  "object_prototype_members =
     [''constructor'', ''__defineGetter__'', ''__defineSetter__'', ''hasOwnProperty'',
      ''__lookupGetter__'', ''__lookupSetter__'', ''isPrototypeOf'', ''propertyIsEnumerable'',
      ''toString'', ''valueOf'', ''__proto__'', ''toLocaleString'']"

definition ordinary_id :: "string \<Rightarrow> bool" where
  "ordinary_id u = (u \<notin> set object_prototype_members)"

text \<open>The candidates buffered for user \<open>u\<close> in the call state of \<open>c\<close>.\<close>

definition ice_buffer :: "state \<Rightarrow> string \<Rightarrow> string \<Rightarrow> ice list option" where
  "ice_buffer s c u = (case map_of (callStates s) c of None \<Rightarrow> None | Some x \<Rightarrow> iceCandidates x u)"

text \<open>
  \<open>'unknown'\<close> is the key the disconnect handler deletes for a socket that never
  registered (line 426); an input registers it when it is a \<open>register\<close> event
  with exactly that user id.
\<close>

fun registers_unknown :: "input \<Rightarrow> bool" where
  "registers_unknown (Event k now (Register uo)) = (uo = Some ''unknown'')"
| "registers_unknown _ = False"

text \<open>
  The directory is consistent when every connected socket that carries a user
  id is the socket bound to that id, user ids on sockets are not empty, and
  nothing is bound to \<open>'unknown'\<close>.
\<close>

definition directory_ok :: "state \<Rightarrow> bool" where
  "directory_ok s =
     ((\<forall>k u. conn (sockets s k) = Open \<and> userId (sockets s k) = Some u
          \<longrightarrow> connectedUsers s u = Some k \<and> u \<noteq> [])
      \<and> connectedUsers s ''unknown'' = None)"

subsection \<open>Scenarios\<close>

definition call_data :: "string \<Rightarrow> string \<Rightarrow> string \<Rightarrow> init_data" where
  "call_data c a r =
     \<lparr>d_callId = Some c, d_callerId = Some a, d_receiverIds = Some [r],
      d_callType = ''audio'', d_extraMeta = []\<rparr>"

text \<open>A registers on socket 1, B on socket 2.\<close>

definition registered_trace :: "input list" where
  "registered_trace =
     [Connection 1, Event 1 0 (Register (Some ''A'')),
      Connection 2, Event 2 0 (Register (Some ''B''))]"

text \<open>... and A calls B with call id c1; the record of c1 is then \<open>ringing_call\<close>.\<close>

definition ringing_trace :: "input list" where
  "ringing_trace = registered_trace @ [Event 1 0 (CallInitiate (call_data ''c1'' ''A'' ''B''))]"

definition ringing_call :: call where
  "ringing_call =
     \<lparr>callId = ''c1'', callerId = ''A'', receiverIds = [''B''], callType = ''audio'',
      participants = [''A'', ''B''], participantSockets = [(''A'', 1)],
      call_status = ''initiated'', extraMeta = []\<rparr>"

text \<open>... and B accepts; the record of c1 is then \<open>active_call\<close>.\<close>

definition active_trace :: "input list" where
  "active_trace = ringing_trace @ [Event 2 0 (CallAccept ''c1'' ''B'')]"

definition active_call :: call where
  "active_call =
     \<lparr>callId = ''c1'', callerId = ''A'', receiverIds = [''B''], callType = ''audio'',
      participants = [''A'', ''B''], participantSockets = [(''A'', 1), (''B'', 2)],
      call_status = ''active'', extraMeta = []\<rparr>"

text \<open>... and C registers on socket 3.\<close>

definition third_user_trace :: "input list" where
  "third_user_trace = active_trace @ [Connection 3, Event 3 0 (Register (Some ''C''))]"

text \<open>After ringing, A sends its offer to B at clock reading 1000.\<close>

definition offered_trace :: "input list" where
  "offered_trace = ringing_trace @ [Event 1 1000 (WebrtcOffer ''c1'' ''A'' ''B'' ''sdp-o'')]"

text \<open>After ringing, the caller hangs up and the receiver accepts.\<close>

definition hangup_accept_trace :: "input list" where
  "hangup_accept_trace =
     ringing_trace @ [Event 1 0 (CallEnd ''c1'' (Some ''A'')), Event 2 0 (CallAccept ''c1'' ''B'')]"

text \<open>
  Socket 1 registers as \<open>'unknown'\<close>; socket 2 connects and closes without
  registering; socket 3 registers as \<open>'unknown'\<close>.
\<close>

definition unknown_trace :: "input list" where
  "unknown_trace =
     [Connection 1, Event 1 0 (Register (Some ''unknown'')),
      Connection 2, Close 2,
      Connection 3, Event 3 0 (Register (Some ''unknown''))]"

text \<open>
  While c1 rings with A's socket 1 cached in its record, socket 1 registers
  again as Z, and a new socket 3 connects (on which A will register).
\<close>

definition cached_trace :: "input list" where
  "cached_trace = ringing_trace @ [Event 1 0 (Register (Some ''Z'')), Connection 3]"

text \<open>A registers on socket 1, then again on socket 2.\<close>

definition reregister_trace :: "input list" where
  "reregister_trace =
     [Connection 1, Event 1 0 (Register (Some ''A'')),
      Connection 2, Event 2 0 (Register (Some ''A''))]"

section \<open>Basic facts about the utilities\<close>

text \<open>Each utility changes the fields it names and no other.\<close>

lemma emit_fields [simp]:
  "sockets (emit k ev s) = sockets s"
  "outbox (emit k ev s) = (outbox s)(k := outbox s k @ [ev])"
  "connectedUsers (emit k ev s) = connectedUsers s"
  "activeCalls (emit k ev s) = activeCalls s"
  "pendingSignals (emit k ev s) = pendingSignals s"
  "userStatus (emit k ev s) = userStatus s"
  "callTimeouts (emit k ev s) = callTimeouts s"
  "callStates (emit k ev s) = callStates s"
  by (simp_all add: emit_def)

lemma setUserStatus_fields [simp]:
  "sockets (setUserStatus u st c s) = sockets s"
  "outbox (setUserStatus u st c s) = outbox s"
  "connectedUsers (setUserStatus u st c s) = connectedUsers s"
  "activeCalls (setUserStatus u st c s) = activeCalls s"
  "pendingSignals (setUserStatus u st c s) = pendingSignals s"
  "userStatus (setUserStatus u st c s) = (userStatus s)(u \<mapsto> \<lparr>status = st, currentCallId = c\<rparr>)"
  "callTimeouts (setUserStatus u st c s) = callTimeouts s"
  "callStates (setUserStatus u st c s) = callStates s"
  by (simp_all add: setUserStatus_def)

lemma queueSignal_fields [simp]:
  "sockets (queueSignal u ev s) = sockets s"
  "outbox (queueSignal u ev s) = outbox s"
  "connectedUsers (queueSignal u ev s) = connectedUsers s"
  "activeCalls (queueSignal u ev s) = activeCalls s"
  "userStatus (queueSignal u ev s) = userStatus s"
  "callTimeouts (queueSignal u ev s) = callTimeouts s"
  "callStates (queueSignal u ev s) = callStates s"
  by (simp_all add: queueSignal_def)

lemma clearCallTimeout_fields [simp]:
  "sockets (clearCallTimeout c s) = sockets s"
  "outbox (clearCallTimeout c s) = outbox s"
  "connectedUsers (clearCallTimeout c s) = connectedUsers s"
  "activeCalls (clearCallTimeout c s) = activeCalls s"
  "pendingSignals (clearCallTimeout c s) = pendingSignals s"
  "userStatus (clearCallTimeout c s) = userStatus s"
  "callTimeouts (clearCallTimeout c s) = (callTimeouts s)(c := None)"
  "callStates (clearCallTimeout c s) = callStates s"
  by (simp_all add: clearCallTimeout_def)

lemma setCallTimeout_fields [simp]:
  "sockets (setCallTimeout c tm s) = sockets s"
  "outbox (setCallTimeout c tm s) = outbox s"
  "connectedUsers (setCallTimeout c tm s) = connectedUsers s"
  "activeCalls (setCallTimeout c tm s) = activeCalls s"
  "pendingSignals (setCallTimeout c tm s) = pendingSignals s"
  "userStatus (setCallTimeout c tm s) = userStatus s"
  "callTimeouts (setCallTimeout c tm s) = (callTimeouts s)(c \<mapsto> tm)"
  "callStates (setCallTimeout c tm s) = callStates s"
  by (simp_all add: setCallTimeout_def Let_def)

lemma delete_call_fields [simp]:
  "sockets (delete_call c s) = sockets s"
  "outbox (delete_call c s) = outbox s"
  "connectedUsers (delete_call c s) = connectedUsers s"
  "activeCalls (delete_call c s) = AList.delete c (activeCalls s)"
  "pendingSignals (delete_call c s) = pendingSignals s"
  "userStatus (delete_call c s) = userStatus s"
  "callTimeouts (delete_call c s) = callTimeouts s"
  "callStates (delete_call c s) = AList.delete c (callStates s)"
  by (simp_all add: delete_call_def)

lemma set_cs_status_fields [simp]:
  "sockets (set_cs_status c st s) = sockets s"
  "outbox (set_cs_status c st s) = outbox s"
  "connectedUsers (set_cs_status c st s) = connectedUsers s"
  "activeCalls (set_cs_status c st s) = activeCalls s"
  "pendingSignals (set_cs_status c st s) = pendingSignals s"
  "userStatus (set_cs_status c st s) = userStatus s"
  "callTimeouts (set_cs_status c st s) = callTimeouts s"
  by (simp_all add: set_cs_status_def split: option.splits)

lemma emit_others_eq:
  "emit_others u ev ps s =
     s\<lparr>outbox := (\<lambda>k. outbox s k @ replicate (cached_on_others u k ps) ev)\<rparr>"
proof (induction ps arbitrary: s)
  case Nil
  show ?case by (simp add: emit_others_def cached_on_others_def)
next
  case (Cons p ps)
  have step: "emit_others u ev (p # ps) s =
      emit_others u ev ps (if fst p \<noteq> u then emit (snd p) ev s else s)"
    by (simp add: emit_others_def)
  show ?case
    unfolding step Cons.IH
    by (auto simp: emit_def cached_on_others_def fun_eq_iff replicate_app_Cons_same)
qed

lemma emit_all_eq:
  "emit_all ev ps s = s\<lparr>outbox := (\<lambda>k. outbox s k @ replicate (cached_on k ps) ev)\<rparr>"
proof (induction ps arbitrary: s)
  case Nil
  show ?case by (simp add: emit_all_def cached_on_def)
next
  case (Cons p ps)
  have step: "emit_all ev (p # ps) s = emit_all ev ps (emit (snd p) ev s)"
    by (simp add: emit_all_def)
  show ?case
    unfolding step Cons.IH
    by (auto simp: emit_def cached_on_def fun_eq_iff replicate_app_Cons_same)
qed

lemma fold_emit_eq: "fold (emit k) q s = s\<lparr>outbox := (outbox s)(k := outbox s k @ q)\<rparr>"
proof (induction q arbitrary: s)
  case Nil
  show ?case by simp
next
  case (Cons e q)
  have step: "fold (emit k) (e # q) s = fold (emit k) q (emit k e s)"
    by simp
  show ?case
    unfolding step Cons.IH
    by (auto simp: emit_def fun_eq_iff)
qed

lemma emit_all_fields [simp]:
  "sockets (emit_all ev ps s) = sockets s"
  "outbox (emit_all ev ps s) k = outbox s k @ replicate (cached_on k ps) ev"
  "connectedUsers (emit_all ev ps s) = connectedUsers s"
  "activeCalls (emit_all ev ps s) = activeCalls s"
  "pendingSignals (emit_all ev ps s) = pendingSignals s"
  "userStatus (emit_all ev ps s) = userStatus s"
  "callTimeouts (emit_all ev ps s) = callTimeouts s"
  "callStates (emit_all ev ps s) = callStates s"
  by (simp_all add: emit_all_eq)

lemma emit_others_fields [simp]:
  "sockets (emit_others u ev ps s) = sockets s"
  "outbox (emit_others u ev ps s) k = outbox s k @ replicate (cached_on_others u k ps) ev"
  "connectedUsers (emit_others u ev ps s) = connectedUsers s"
  "activeCalls (emit_others u ev ps s) = activeCalls s"
  "pendingSignals (emit_others u ev ps s) = pendingSignals s"
  "userStatus (emit_others u ev ps s) = userStatus s"
  "callTimeouts (emit_others u ev ps s) = callTimeouts s"
  "callStates (emit_others u ev ps s) = callStates s"
  by (simp_all add: emit_others_eq)

lemma deliverPendingSignals_fields [simp]:
  "sockets (deliverPendingSignals u k s) = sockets s"
  "connectedUsers (deliverPendingSignals u k s) = connectedUsers s"
  "activeCalls (deliverPendingSignals u k s) = activeCalls s"
  "pendingSignals (deliverPendingSignals u k s) = (pendingSignals s)(u := None)"
  "userStatus (deliverPendingSignals u k s) = userStatus s"
  "callTimeouts (deliverPendingSignals u k s) = callTimeouts s"
  "callStates (deliverPendingSignals u k s) = callStates s"
  by (auto simp: deliverPendingSignals_def fold_emit_eq split: option.splits)

lemma deliverPendingSignals_outbox:
  "outbox (deliverPendingSignals u k s) k =
     outbox s k @ (case pendingSignals s u of None \<Rightarrow> [] | Some q \<Rightarrow> q)"
  by (simp add: deliverPendingSignals_def fold_emit_eq split: option.splits)

lemma fold_field:
  assumes "\<And>x s. f (g x s) = f s"
  shows "f (fold g xs s) = f s"
  using assms by (induction xs arbitrary: s) simp_all

lemma disconnect_call_fields [simp]:
  "sockets (disconnect_call u e s) = sockets s"
  "connectedUsers (disconnect_call u e s) = connectedUsers s"
  "pendingSignals (disconnect_call u e s) = pendingSignals s"
  "callTimeouts (disconnect_call u e s) = callTimeouts s"
  by (simp_all add: disconnect_call_def Let_def split: prod.splits)

lemma on_disconnect_fields [simp]:
  "sockets (on_disconnect k s) = sockets s"
  "pendingSignals (on_disconnect k s) = pendingSignals s"
  "callTimeouts (on_disconnect k s) = callTimeouts s"
  by (simp_all add: on_disconnect_def Let_def fold_field)

lemma on_disconnect_connectedUsers:
  "connectedUsers (on_disconnect k s) =
     (connectedUsers s)
       ((if truthy (userId (sockets s k)) then the (userId (sockets s k)) else ''unknown'') := None)"
  by (simp add: on_disconnect_def Let_def fold_field)

lemma close_socket_pendingSignals [simp]:
  "pendingSignals (close_socket k s) = pendingSignals s"
  by (simp add: close_socket_def)

lemma replace_existing_pendingSignals [simp]:
  "pendingSignals (replace_existing u k s) = pendingSignals s"
  by (simp add: replace_existing_def split: option.splits)

text \<open>A socket cached under a key is counted at least once.\<close>

lemma cached_on_others_pos:
  assumes "map_of ps v = Some kv" and "v \<noteq> u"
  shows "0 < cached_on_others u kv ps"
proof -
  have "(v, kv) \<in> set ps" using assms(1) by (rule map_of_SomeD)
  then have "(v, kv) \<in> set (filter (\<lambda>p. fst p \<noteq> u \<and> snd p = kv) ps)"
    using assms(2) by simp
  then show ?thesis
    unfolding cached_on_others_def by (rule length_pos_if_in_set)
qed

lemma cached_on_pos:
  assumes "map_of ps v = Some kv"
  shows "0 < cached_on kv ps"
proof -
  have "(v, kv) \<in> set ps" using assms by (rule map_of_SomeD)
  then have "(v, kv) \<in> set (filter (\<lambda>p. snd p = kv) ps)" by simp
  then show ?thesis
    unfolding cached_on_def by (rule length_pos_if_in_set)
qed

text \<open>The scenario states that the examples below start from.\<close>

lemma ringing_state:
  "map_of (activeCalls (run ringing_trace)) ''c1'' = Some ringing_call"
  "connectedUsers (run ringing_trace) ''A'' = Some 1"
  "connectedUsers (run ringing_trace) ''B'' = Some 2"
  "userStatus (run ringing_trace) ''A'' = Some \<lparr>status = ''busy'', currentCallId = Some ''c1''\<rparr>"
  "userStatus (run ringing_trace) ''B'' = Some \<lparr>status = ''ringing'', currentCallId = Some ''c1''\<rparr>"
  "outbox (run ringing_trace) 1 = [Registered, CallRinging ''c1'' ''B'']"
  by code_simp+

lemma active_state:
  "map_of (activeCalls (run active_trace)) ''c1'' = Some active_call"
  "map_option cs_status (map_of (callStates (run active_trace)) ''c1'') = Some ''active''"
  "connectedUsers (run active_trace) ''B'' = Some 2"
  "userStatus (run active_trace) ''B'' = Some \<lparr>status = ''in-call'', currentCallId = Some ''c1''\<rparr>"
  "outbox (run active_trace) 1
     = [Registered, CallRinging ''c1'' ''B'', CallAccepted ''c1'' ''B'', StartSignaling ''c1'']"
  "outbox (run active_trace) 2
     = [Registered, IncomingCall (call_data ''c1'' ''A'' ''B''), StartSignaling ''c1'']"
  by code_simp+

section \<open>register\<close>

text \<open>The calls keep their ids and order; each record is mapped on its own.\<close>

lemma attach_socket_keys: "map fst (map (attach_socket u k) cs) = map fst cs"
  by (induction cs) (auto simp: attach_socket_def split: prod.splits)

lemma map_of_attach_socket:
  "map_of (map (attach_socket u k) cs) c
     = map_option (\<lambda>cl. snd (attach_socket u k (c, cl))) (map_of cs c)"
  by (induction cs) (auto simp: attach_socket_def split: prod.splits)

lemma update_absent: "map_of ps u = None \<Longrightarrow> AList.update u k ps = ps @ [(u, k)]"
  by (induction ps) (auto split: if_splits)

text \<open>
  C1 (as amended). A \<open>register\<close> event with a non-empty, ordinary user id \<open>u\<close>
  always sets the presence of \<open>u\<close> to \<open>available\<close> with \<open>currentCallId\<close> null,
  whatever the presence was and whether or not \<open>u\<close> is in a live call. It binds
  the socket to \<open>u\<close> and emits \<open>registered\<close> and then the pending signals of
  \<open>u\<close>, whose queue is deleted. The call records are those left by the close
  of a superseded socket (there is none, and no change, when \<open>u\<close> was unbound
  or bound to this socket), in the same order, with one change in a record: where
  \<open>u\<close> is a participant and has no cached socket, the new socket is appended
  to the cached sockets; a socket already cached for \<open>u\<close> is left as it is.
\<close>

theorem register_resets_presence:
  assumes "u \<noteq> []" and "ordinary_id u"
  shows "userStatus (register k (Some u) s) u
           = Some \<lparr>status = ''available'', currentCallId = None\<rparr>
       \<and> connectedUsers (register k (Some u) s) u = Some k
       \<and> pendingSignals (register k (Some u) s) u = None
       \<and> outbox (register k (Some u) s) k
           = outbox (replace_existing u k s) k
             @ Registered # (case pendingSignals s u of None \<Rightarrow> [] | Some q \<Rightarrow> q)
       \<and> map fst (activeCalls (register k (Some u) s))
           = map fst (activeCalls (replace_existing u k s))
       \<and> (map_of (activeCalls (replace_existing u k s)) c = Some cl \<longrightarrow>
            map_of (activeCalls (register k (Some u) s)) c
              = Some (if u \<in> set (participants cl) \<and> map_of (participantSockets cl) u = None
                      then cl\<lparr>participantSockets := participantSockets cl @ [(u, k)]\<rparr>
                      else cl))
       \<and> (connectedUsers s u = None \<or> connectedUsers s u = Some k \<longrightarrow>
            replace_existing u k s = s)"
proof -
  have calls: "activeCalls (register k (Some u) s)
      = map (attach_socket u k) (activeCalls (replace_existing u k s))"
    using assms(1) by (simp add: register_def Let_def)
  have rec: "map_of (activeCalls (register k (Some u) s)) c
      = Some (if u \<in> set (participants cl) \<and> map_of (participantSockets cl) u = None
              then cl\<lparr>participantSockets := participantSockets cl @ [(u, k)]\<rparr>
              else cl)"
    if "map_of (activeCalls (replace_existing u k s)) c = Some cl"
    using that unfolding calls map_of_attach_socket
    by (simp add: attach_socket_def update_absent)
  have same: "replace_existing u k s = s"
    if "connectedUsers s u = None \<or> connectedUsers s u = Some k"
    using that by (auto simp: replace_existing_def getUserSocket_def)
  have rest: "userStatus (register k (Some u) s) u
           = Some \<lparr>status = ''available'', currentCallId = None\<rparr>
       \<and> connectedUsers (register k (Some u) s) u = Some k
       \<and> pendingSignals (register k (Some u) s) u = None
       \<and> outbox (register k (Some u) s) k
           = outbox (replace_existing u k s) k
             @ Registered # (case pendingSignals s u of None \<Rightarrow> [] | Some q \<Rightarrow> q)"
    using assms(1) by (simp add: register_def Let_def deliverPendingSignals_outbox)
  have keys: "map fst (activeCalls (register k (Some u) s))
      = map fst (activeCalls (replace_existing u k s))"
    unfolding calls by (rule attach_socket_keys)
  show ?thesis
    using rest keys rec same by blast
qed

text \<open>
  B, a participant of c1 without a cached socket, registers again on its
  socket 2, which is then cached. A, whose socket 1 is cached in c1 and has
  since registered as Z, registers on the new socket 3: socket 1 is closed
  and stays the socket cached for A.
\<close>

theorem register_resets_presence_witness:
  "ordinary_id ''B'' \<and> ordinary_id ''A''
   \<and> connectedUsers (run ringing_trace) ''B'' = Some 2
   \<and> map_of (activeCalls (run ringing_trace)) ''c1'' = Some ringing_call
   \<and> userStatus (register 2 (Some ''B'') (run ringing_trace)) ''B''
       = Some \<lparr>status = ''available'', currentCallId = None\<rparr>
   \<and> connectedUsers (register 2 (Some ''B'') (run ringing_trace)) ''B'' = Some 2
   \<and> pendingSignals (register 2 (Some ''B'') (run ringing_trace)) ''B'' = None
   \<and> map_of (activeCalls (register 2 (Some ''B'') (run ringing_trace))) ''c1''
       = Some (ringing_call\<lparr>participantSockets := [(''A'', 1), (''B'', 2)]\<rparr>)
   \<and> connectedUsers (run cached_trace) ''A'' = Some 1
   \<and> map_of (activeCalls (replace_existing ''A'' 3 (run cached_trace))) ''c1'' = Some ringing_call
   \<and> userStatus (register 3 (Some ''A'') (run cached_trace)) ''A''
       = Some \<lparr>status = ''available'', currentCallId = None\<rparr>
   \<and> connectedUsers (register 3 (Some ''A'') (run cached_trace)) ''A'' = Some 3
   \<and> map_of (activeCalls (register 3 (Some ''A'') (run cached_trace))) ''c1'' = Some ringing_call"
proof -
  have ord: "ordinary_id ''B''" "ordinary_id ''A''"
    by (simp_all add: ordinary_id_def object_prototype_members_def)
  have old: "connectedUsers (run cached_trace) ''A'' = Some 1"
    and left: "map_of (activeCalls (replace_existing ''A'' 3 (run cached_trace))) ''c1''
      = Some ringing_call"
    by code_simp+
  note b = register_resets_presence [of "''B''" 2 "run ringing_trace" "''c1''" ringing_call]
  note a = register_resets_presence [of "''A''" 3 "run cached_trace" "''c1''" ringing_call]
  have rb: "replace_existing ''B'' 2 (run ringing_trace) = run ringing_trace"
    using b ord ringing_state(3) by simp
  show ?thesis
    using ord old left ringing_state(1,3) a b rb
    by (simp add: ringing_call_def)
qed

text \<open>
  B is ringing in the live call c1, of which it is a participant, and sends
  \<open>register\<close> again on its socket: its presence becomes \<open>available\<close> with no
  call id, while c1 stays in the registry.
\<close>

theorem register_resets_ringing_user:
  "userStatus (run ringing_trace) ''B'' = Some \<lparr>status = ''ringing'', currentCallId = Some ''c1''\<rparr>
   \<and> map_of (activeCalls (run ringing_trace)) ''c1'' = Some ringing_call
   \<and> conn (sockets (run ringing_trace) 2) = Open
   \<and> userStatus (step (run ringing_trace) (Event 2 0 (Register (Some ''B'')))) ''B''
        = Some \<lparr>status = ''available'', currentCallId = None\<rparr>
   \<and> map_of (activeCalls (step (run ringing_trace) (Event 2 0 (Register (Some ''B''))))) ''c1''
        = Some (ringing_call\<lparr>participantSockets := [(''A'', 1), (''B'', 2)]\<rparr>)"
  by code_simp

section \<open>call\_initiate to a busy receiver\<close>

text \<open>
  C2 (as amended). For a \<open>call_initiate\<close> with a call id, a caller id bound to
  a socket and a first receiver whose presence status is \<open>busy\<close>, the handler
  only emits \<open>call_busy{callId, receiverId}\<close> on the caller's bound socket: no
  call record is created and no presence changes. (The guard tests \<open>busy\<close>
  alone.)
\<close>

theorem call_initiate_busy:
  assumes "d_callId d = Some c" and "c \<noteq> []"
    and "d_callerId d = Some a" and "a \<noteq> []"
    and "d_receiverIds d = Some (r # rs)"
    and "connectedUsers s a = Some callerSocket"
    and "userStatus s r = Some p" and "status p = ''busy''"
  shows "call_initiate k d now s = emit callerSocket (CallBusy c r) s
       \<and> outbox (call_initiate k d now s) callerSocket = outbox s callerSocket @ [CallBusy c r]
       \<and> activeCalls (call_initiate k d now s) = activeCalls s
       \<and> userStatus (call_initiate k d now s) = userStatus s"
proof -
  have "call_initiate k d now s = emit callerSocket (CallBusy c r) s"
    using assms by (simp add: call_initiate_def getUserSocket_def getUserStatus_def Let_def)
  then show ?thesis by simp
qed

text \<open>While c1 rings, A is \<open>busy\<close>; B calling A gets \<open>call_busy\<close>.\<close>

theorem call_initiate_busy_witness:
  "connectedUsers (run ringing_trace) ''B'' = Some 2
   \<and> userStatus (run ringing_trace) ''A'' = Some \<lparr>status = ''busy'', currentCallId = Some ''c1''\<rparr>
   \<and> call_initiate 2 (call_data ''c2'' ''B'' ''A'') 0 (run ringing_trace)
       = emit 2 (CallBusy ''c2'' ''A'') (run ringing_trace)
   \<and> activeCalls (call_initiate 2 (call_data ''c2'' ''B'' ''A'') 0 (run ringing_trace))
       = activeCalls (run ringing_trace)
   \<and> userStatus (call_initiate 2 (call_data ''c2'' ''B'' ''A'') 0 (run ringing_trace))
       = userStatus (run ringing_trace)"
  using ringing_state(3,4)
    call_initiate_busy [of "call_data ''c2'' ''B'' ''A''" "''c2''" "''B''" "''A''" "[]"
      "run ringing_trace" 2 "\<lparr>status = ''busy'', currentCallId = Some ''c1''\<rparr>" 2 0]
  by (simp add: call_data_def)

text \<open>
  B is \<open>in-call\<close> in c1 when C calls B with call id c2: C gets \<open>call_ringing\<close>
  and no \<open>call_busy\<close>, a record for c2 is created, and B's presence becomes
  \<open>ringing\<close> in c2.
\<close>

theorem in_call_receiver_is_called:
  "userStatus (run third_user_trace) ''B'' = Some \<lparr>status = ''in-call'', currentCallId = Some ''c1''\<rparr>
   \<and> map_of (activeCalls (run third_user_trace)) ''c2'' = None
   \<and> outbox (step (run third_user_trace) (Event 3 0 (CallInitiate (call_data ''c2'' ''C'' ''B'')))) 3
        = [Registered, CallRinging ''c2'' ''B'']
   \<and> map_option participants
        (map_of (activeCalls (step (run third_user_trace)
           (Event 3 0 (CallInitiate (call_data ''c2'' ''C'' ''B''))))) ''c2'') = Some [''C'', ''B'']
   \<and> userStatus (step (run third_user_trace) (Event 3 0 (CallInitiate (call_data ''c2'' ''C'' ''B'')))) ''B''
        = Some \<lparr>status = ''ringing'', currentCallId = Some ''c2''\<rparr>"
  by code_simp

section \<open>call\_end\<close>

text \<open>
  C3 (as amended). When one of the two participants \<open>u\<close>, \<open>v\<close> of a call sends
  \<open>call_end\<close> as \<open>u\<close>, every socket \<open>j\<close> is sent one \<open>call_ended\<close> with user id
  \<open>u\<close> and reason "User ended the call" for each key other than \<open>u\<close> that caches
  \<open>j\<close>, and nothing else; so the socket of \<open>v\<close> is sent it when it is cached.
  Whether or not it is, \<open>u\<close> leaves the participants and the cached sockets
  and its presence becomes \<open>available\<close>, the record stays in the registry with
  \<open>v\<close> as its only participant, the timer of the call is cleared, and no
  presence other than that of \<open>u\<close> changes.
\<close>

theorem call_end_one_to_one:
  assumes "map_of (activeCalls s) c = Some cl"
    and "participants cl = [u, v] \<or> participants cl = [v, u]" and "u \<noteq> v" and "u \<noteq> []"
  shows "outbox (call_end k c (Some u) s) j
           = outbox s j @ replicate (cached_on_others u j (participantSockets cl))
                            (CallEnded c u ''User ended the call'')
       \<and> (map_of (participantSockets cl) v = Some kv
            \<longrightarrow> 0 < cached_on_others u kv (participantSockets cl))
       \<and> map_of (activeCalls (call_end k c (Some u) s)) c
           = Some (cl\<lparr>participants := [v],
                      participantSockets := AList.delete u (participantSockets cl)\<rparr>)
       \<and> userStatus (call_end k c (Some u) s)
           = (userStatus s)(u \<mapsto> \<lparr>status = ''available'', currentCallId = None\<rparr>)
       \<and> callTimeouts (call_end k c (Some u) s) = (callTimeouts s)(c := None)"
proof -
  have f: "filter (\<lambda>i. i \<noteq> u) (participants cl) = [v]"
    using assms(2,3) by auto
  have pos: "0 < cached_on_others u kv (participantSockets cl)"
    if "map_of (participantSockets cl) v = Some kv"
    using that assms(3) by (intro cached_on_others_pos) auto
  show ?thesis
    using assms(1,4) f pos
    by (simp add: call_end_def Let_def AList.update_conv')
qed

text \<open>
  A ends the active call c1, in which B's socket 2 is cached. The caller A hangs
  up while c1 rings, when only A's socket is cached: nothing is sent to B's
  socket 2 and the record stays with B.
\<close>

theorem call_end_one_to_one_witness:
  "map_of (activeCalls (run active_trace)) ''c1'' = Some active_call
   \<and> outbox (call_end 1 ''c1'' (Some ''A'') (run active_trace)) 2
       = outbox (run active_trace) 2 @ [CallEnded ''c1'' ''A'' ''User ended the call'']
   \<and> map_of (activeCalls (call_end 1 ''c1'' (Some ''A'') (run active_trace))) ''c1''
       = Some (active_call\<lparr>participants := [''B''], participantSockets := [(''B'', 2)]\<rparr>)
   \<and> userStatus (call_end 1 ''c1'' (Some ''A'') (run active_trace)) ''B''
       = Some \<lparr>status = ''in-call'', currentCallId = Some ''c1''\<rparr>
   \<and> map_of (activeCalls (run ringing_trace)) ''c1'' = Some ringing_call
   \<and> outbox (call_end 1 ''c1'' (Some ''A'') (run ringing_trace)) 2 = outbox (run ringing_trace) 2
   \<and> map_of (activeCalls (call_end 1 ''c1'' (Some ''A'') (run ringing_trace))) ''c1''
       = Some (ringing_call\<lparr>participants := [''B''], participantSockets := []\<rparr>)
   \<and> userStatus (call_end 1 ''c1'' (Some ''A'') (run ringing_trace)) ''B''
       = Some \<lparr>status = ''ringing'', currentCallId = Some ''c1''\<rparr>
   \<and> userStatus (call_end 1 ''c1'' (Some ''A'') (run ringing_trace)) ''A''
       = Some \<lparr>status = ''available'', currentCallId = None\<rparr>"
  using active_state(1,4) ringing_state(1,5)
    call_end_one_to_one [of "run active_trace" "''c1''" active_call "''A''" "''B''" 1 2 2]
    call_end_one_to_one [of "run ringing_trace" "''c1''" ringing_call "''A''" "''B''" 1 2 2]
  by (simp add: active_call_def ringing_call_def cached_on_others_def AList.delete_eq)

text \<open>
  A ends the active call c1 between A and B: c1 is still in the registry, with
  B as participant, and B's presence is still \<open>in-call\<close>.
\<close>

theorem call_end_keeps_record:
  "map_of (activeCalls (run active_trace)) ''c1'' = Some active_call
   \<and> map_option participants
        (map_of (activeCalls (step (run active_trace) (Event 1 0 (CallEnd ''c1'' (Some ''A''))))) ''c1'')
        = Some [''B'']
   \<and> userStatus (step (run active_trace) (Event 1 0 (CallEnd ''c1'' (Some ''A'')))) ''B''
        = Some \<lparr>status = ''in-call'', currentCallId = Some ''c1''\<rparr>"
  by code_simp

section \<open>The offer-stall sweep\<close>

text \<open>
  C4. The call c1 is \<open>initiated\<close> with one offer sent at clock reading 1000 and
  the caller's socket 1 cached in the record. A sweeper tick at 11001 emits
  \<open>call_timeout\<close> with reason "No answer from receiver" on socket 1 and deletes
  the record, but emits no \<open>call_ended\<close> on the cached socket; the no-answer
  timer in the same state emits \<open>call_timeout\<close> and then \<open>call_ended\<close> on it.
\<close>

theorem sweep_emits_no_call_ended:
  "map_of (activeCalls (run offered_trace)) ''c1'' = Some ringing_call
   \<and> map_option cs_status (map_of (callStates (run offered_trace)) ''c1'') = Some ''initiated''
   \<and> map_option offerAttempts (map_of (callStates (run offered_trace)) ''c1'') = Some 1
   \<and> map_option lastOfferTime (map_of (callStates (run offered_trace)) ''c1'') = Some 1000
   \<and> outbox (run offered_trace) 1 = [Registered, CallRinging ''c1'' ''B'']
   \<and> outbox (step (run offered_trace) (Sweep 11001)) 1
       = [Registered, CallRinging ''c1'' ''B'', CallTimeout ''c1'' ''No answer from receiver'']
   \<and> outbox (step (run offered_trace) (Sweep 11001)) 2 = outbox (run offered_trace) 2
   \<and> map_of (activeCalls (step (run offered_trace) (Sweep 11001))) ''c1'' = None
   \<and> outbox (step (run offered_trace) (Timeout ''c1'')) 1
       = [Registered, CallRinging ''c1'' ''B'', CallTimeout ''c1'' ''No answer'',
          CallEnded ''c1'' ''system'' ''Timeout'']"
  by code_simp

section \<open>The loopback guard\<close>

text \<open>
  C5 (as amended). A \<open>webrtc_offer\<close> with \<open>from\<close> equal to \<open>to\<close> for a call that
  has a record and a call state is not forwarded, not queued and not
  buffered: no outbox, no pending queue and no candidate buffer changes, and
  the registry is untouched. The offer is still counted: \<open>offerAttempts\<close> goes
  up by one and \<open>lastOfferTime\<close> becomes the clock reading. For a call without
  a record or without a call state, the offer is queued for \<open>to\<close> as any
  other offer for an unknown call is, and nothing else happens.
\<close>

theorem webrtc_offer_loopback:
  "(map_of (activeCalls s) c \<noteq> None \<and> map_of (callStates s) c \<noteq> None \<longrightarrow>
      outbox (webrtc_offer k c u u sdp now s) = outbox s
      \<and> pendingSignals (webrtc_offer k c u u sdp now s) = pendingSignals s
      \<and> activeCalls (webrtc_offer k c u u sdp now s) = activeCalls s
      \<and> ice_buffer (webrtc_offer k c u u sdp now s) c = ice_buffer s c
      \<and> map_option offerAttempts (map_of (callStates (webrtc_offer k c u u sdp now s)) c)
          = map_option (\<lambda>x. offerAttempts x + 1) (map_of (callStates s) c)
      \<and> map_option lastOfferTime (map_of (callStates (webrtc_offer k c u u sdp now s)) c)
          = Some now)
   \<and> (map_of (activeCalls s) c = None \<or> map_of (callStates s) c = None \<longrightarrow>
      webrtc_offer k c u u sdp now s = queueSignal u (OutOffer c u sdp) s)"
  by (auto simp: webrtc_offer_def Let_def AList.update_conv' ice_buffer_def fun_eq_iff
        split: option.splits)

theorem webrtc_offer_loopback_witness:
  "map_of (activeCalls (run active_trace)) ''c1'' \<noteq> None
   \<and> map_of (callStates (run active_trace)) ''c1'' \<noteq> None
   \<and> outbox (webrtc_offer 2 ''c1'' ''B'' ''B'' ''sdp-o'' 7 (run active_trace))
       = outbox (run active_trace)
   \<and> pendingSignals (webrtc_offer 2 ''c1'' ''B'' ''B'' ''sdp-o'' 7 (run active_trace))
       = pendingSignals (run active_trace)
   \<and> map_of (activeCalls (run active_trace)) ''c9'' = None
   \<and> webrtc_offer 2 ''c9'' ''B'' ''B'' ''sdp-o'' 7 (run active_trace)
       = queueSignal ''B'' (OutOffer ''c9'' ''B'' ''sdp-o'') (run active_trace)"
proof -
  have a: "map_of (activeCalls (run active_trace)) ''c1'' \<noteq> None"
    using active_state(1) by simp
  have b: "map_of (callStates (run active_trace)) ''c1'' \<noteq> None"
    using active_state(2) by auto
  have c: "map_of (activeCalls (run active_trace)) ''c9'' = None"
    by code_simp
  show ?thesis
    using a b c
      webrtc_offer_loopback [of "run active_trace" "''c1''" 2 "''B''" "''sdp-o''" 7]
      webrtc_offer_loopback [of "run active_trace" "''c9''" 2 "''B''" "''sdp-o''" 7]
    by simp
qed

text \<open>
  In the active call c1, an answer and a candidate from B to B are forwarded
  to B's socket, and the candidate is buffered; an offer from B to B for the
  unknown call c9 is queued for B.
\<close>

theorem loopback_answer_forwarded:
  "outbox (step (run active_trace) (Event 2 5 (WebrtcAnswer ''c1'' ''B'' ''B'' ''sdp-a''))) 2
     = outbox (run active_trace) 2 @ [OutAnswer ''c1'' ''B'' ''sdp-a'']
   \<and> outbox (step (run active_trace) (Event 2 5 (IceCandidate ''c1'' ''B'' ''B'' ''cand''))) 2
     = outbox (run active_trace) 2 @ [OutIce ''c1'' ''B'' None ''cand'']
   \<and> ice_buffer (step (run active_trace) (Event 2 5 (IceCandidate ''c1'' ''B'' ''B'' ''cand''))) ''c1'' ''B''
     = Some [\<lparr>ice_from = ''B'', candidate = ''cand'', timestamp = 5\<rparr>]
   \<and> pendingSignals (run active_trace) ''B'' = None
   \<and> pendingSignals (step (run active_trace) (Event 2 5 (WebrtcOffer ''c9'' ''B'' ''B'' ''sdp-o''))) ''B''
     = Some [OutOffer ''c9'' ''B'' ''sdp-o'']"
  by code_simp

section \<open>call\_accept\<close>

text \<open>What a \<open>call_accept\<close> does once its three checks have passed.\<close>

lemma call_accept_success:
  assumes "map_of (activeCalls s) c = Some cl" and "connectedUsers s r = Some receiverSocket"
    and "r \<in> set (participants cl)"
  shows "call_accept k c r s =
     (let cl' = cl\<lparr>participantSockets := AList.update r receiverSocket (participantSockets cl),
                    call_status := ''active''\<rparr>
      in emit_all (StartSignaling c) (participantSockets cl')
           (emit_others r (CallAccepted c r) (participantSockets cl')
              (set_cs_status c ''active''
                 (setUserStatus (callerId cl) ''in-call'' (Some c)
                    (setUserStatus r ''in-call'' (Some c)
                       ((clearCallTimeout c s)\<lparr>activeCalls := AList.update c cl' (activeCalls s)\<rparr>))))))"
  using assms by (simp add: call_accept_def getUserSocket_def Let_def)

text \<open>
  C6 (as amended). A \<open>call_accept\<close> for a record whose status is already
  \<open>active\<close>, by a receiver id other than \<open>__proto__\<close> (assigning under that
  key adds no cached socket), is handled like the first one. It caches the receiver's bound
  socket in the record, sets the presence of the receiver and of the caller to
  \<open>in-call\<close> in this call, clears the timer, and emits on every socket \<open>j\<close>
  one \<open>call_accepted\<close> for each key other than the receiver id that caches \<open>j\<close>,
  then one \<open>start_signaling\<close> for each key that caches \<open>j\<close>.
\<close>

theorem call_accept_active_repeats:
  assumes "map_of (activeCalls s) c = Some cl" and "call_status cl = ''active''"
    and "connectedUsers s r = Some receiverSocket" and "r \<in> set (participants cl)"
    and "r \<noteq> ''__proto__''"
  shows "outbox (call_accept k c r s) j
           = outbox s j
             @ replicate (cached_on_others r j (AList.update r receiverSocket (participantSockets cl)))
                 (CallAccepted c r)
             @ replicate (cached_on j (AList.update r receiverSocket (participantSockets cl)))
                 (StartSignaling c)
       \<and> map_of (activeCalls (call_accept k c r s)) c
           = Some (cl\<lparr>participantSockets := AList.update r receiverSocket (participantSockets cl)\<rparr>)
       \<and> userStatus (call_accept k c r s)
           = (userStatus s)(r \<mapsto> \<lparr>status = ''in-call'', currentCallId = Some c\<rparr>,
                            callerId cl \<mapsto> \<lparr>status = ''in-call'', currentCallId = Some c\<rparr>)
       \<and> callTimeouts (call_accept k c r s) = (callTimeouts s)(c := None)"
proof -
  have "cl\<lparr>participantSockets := AList.update r receiverSocket (participantSockets cl),
           call_status := ''active''\<rparr>
        = cl\<lparr>participantSockets := AList.update r receiverSocket (participantSockets cl)\<rparr>"
    using assms(2) by simp
  then show ?thesis
    using assms(1,3,4) by (simp add: call_accept_success Let_def AList.update_conv')
qed

theorem call_accept_active_repeats_witness:
  "map_of (activeCalls (run active_trace)) ''c1'' = Some active_call
   \<and> call_status active_call = ''active''
   \<and> connectedUsers (run active_trace) ''B'' = Some 2
   \<and> ''B'' \<in> set (participants active_call)
   \<and> ''B'' \<noteq> ''__proto__''
   \<and> outbox (call_accept 2 ''c1'' ''B'' (run active_trace)) 1
       = outbox (run active_trace) 1 @ [CallAccepted ''c1'' ''B'', StartSignaling ''c1'']
   \<and> outbox (call_accept 2 ''c1'' ''B'' (run active_trace)) 2
       = outbox (run active_trace) 2 @ [StartSignaling ''c1'']"
  using active_state(1,3)
    call_accept_active_repeats [of "run active_trace" "''c1''" active_call "''B''" 2 2 1]
    call_accept_active_repeats [of "run active_trace" "''c1''" active_call "''B''" 2 2 2]
  by (simp add: active_call_def cached_on_def cached_on_others_def)

text \<open>
  B accepts the already active call c1 a second time: the caller's socket 1
  is sent \<open>call_accepted\<close> and \<open>start_signaling\<close> again.
\<close>

theorem second_accept_notifies_caller:
  "map_of (activeCalls (run active_trace)) ''c1'' = Some active_call
   \<and> outbox (run active_trace) 1
       = [Registered, CallRinging ''c1'' ''B'', CallAccepted ''c1'' ''B'', StartSignaling ''c1'']
   \<and> outbox (step (run active_trace) (Event 2 0 (CallAccept ''c1'' ''B''))) 1
       = [Registered, CallRinging ''c1'' ''B'', CallAccepted ''c1'' ''B'', StartSignaling ''c1'',
          CallAccepted ''c1'' ''B'', StartSignaling ''c1'']"
  by code_simp

text \<open>
  C8 (as amended). Within the handling of one \<open>call_accept\<close> that passes its
  checks, with the caller's socket cached in the record and the caller not
  the accepting receiver, the caller's socket is sent \<open>call_accepted\<close> (at
  least once) and only then \<open>start_signaling\<close> (at least once), and nothing
  else. Nothing is said about \<open>start_signaling\<close> emitted by \<open>user_ready\<close>.
\<close>

theorem call_accept_order:
  assumes "map_of (activeCalls s) c = Some cl"
    and "connectedUsers s r = Some receiverSocket" and "r \<in> set (participants cl)"
    and "callerId cl \<noteq> r" and "map_of (participantSockets cl) (callerId cl) = Some callerSocket"
  shows "outbox (call_accept k c r s) callerSocket
           = outbox s callerSocket
             @ replicate (cached_on_others r callerSocket
                            (AList.update r receiverSocket (participantSockets cl)))
                 (CallAccepted c r)
             @ replicate (cached_on callerSocket
                            (AList.update r receiverSocket (participantSockets cl)))
                 (StartSignaling c)
       \<and> 0 < cached_on_others r callerSocket
                (AList.update r receiverSocket (participantSockets cl))
       \<and> 0 < cached_on callerSocket (AList.update r receiverSocket (participantSockets cl))"
proof -
  let ?ps = "AList.update r receiverSocket (participantSockets cl)"
  have m: "map_of ?ps (callerId cl) = Some callerSocket"
    using assms(4,5) by (simp add: AList.update_conv')
  have a: "0 < cached_on_others r callerSocket ?ps"
    using m assms(4) by (rule cached_on_others_pos)
  have b: "0 < cached_on callerSocket ?ps"
    using m by (rule cached_on_pos)
  have "outbox (call_accept k c r s) callerSocket
          = outbox s callerSocket @ replicate (cached_on_others r callerSocket ?ps) (CallAccepted c r)
            @ replicate (cached_on callerSocket ?ps) (StartSignaling c)"
    using assms(1,2,3) by (simp add: call_accept_success Let_def)
  then show ?thesis using a b by simp
qed

theorem call_accept_order_witness:
  "map_of (activeCalls (run ringing_trace)) ''c1'' = Some ringing_call
   \<and> connectedUsers (run ringing_trace) ''B'' = Some 2
   \<and> ''B'' \<in> set (participants ringing_call)
   \<and> callerId ringing_call \<noteq> ''B''
   \<and> map_of (participantSockets ringing_call) (callerId ringing_call) = Some 1
   \<and> outbox (call_accept 2 ''c1'' ''B'' (run ringing_trace)) 1
       = outbox (run ringing_trace) 1 @ [CallAccepted ''c1'' ''B'', StartSignaling ''c1'']"
  using ringing_state(1,3)
    call_accept_order [of "run ringing_trace" "''c1''" ringing_call "''B''" 2 1 2]
  by (simp add: ringing_call_def cached_on_def cached_on_others_def)

text \<open>
  While c1 rings and before any \<open>call_accept\<close>, B sends \<open>user_ready\<close>: the
  caller's socket 1 is sent \<open>start_signaling\<close> for c1 and has never been sent
  \<open>call_accepted\<close>. When B accepts afterwards, \<open>call_accepted\<close> reaches the
  caller after that first \<open>start_signaling\<close>.
\<close>

theorem start_signaling_before_accept:
  "map_of (activeCalls (run ringing_trace)) ''c1'' = Some ringing_call
   \<and> connectedUsers (run ringing_trace) ''A'' = Some 1
   \<and> outbox (run (ringing_trace @ [Event 2 0 (UserReady ''c1'' ''B'')])) 1
       = [Registered, CallRinging ''c1'' ''B'', StartSignaling ''c1'']
   \<and> outbox (run (ringing_trace @ [Event 2 0 (UserReady ''c1'' ''B''),
                                      Event 2 0 (CallAccept ''c1'' ''B'')])) 1
       = [Registered, CallRinging ''c1'' ''B'', StartSignaling ''c1'',
          CallAccepted ''c1'' ''B'', StartSignaling ''c1'']"
  by code_simp

section \<open>Presence and the registry\<close>

text \<open>
  C9 (as amended). The handlers that set a presence to \<open>ringing\<close> or \<open>in-call\<close>
  establish the property at that moment. Right after a \<open>call_initiate\<close> that
  creates a record while the first receiver is bound to a socket, that
  receiver is \<open>ringing\<close> with \<open>currentCallId\<close> the new call id, and the record
  of that id has the participants caller and receiver. Right after a
  \<open>call_accept\<close> that passes its checks, the accepting receiver is \<open>in-call\<close>
  with \<open>currentCallId\<close> the call id, and the record of that id still lists it
  as a participant. Later events need not preserve this.
\<close>

theorem handlers_establish_presence:
  "(d_callId d = Some c \<and> c \<noteq> [] \<and> d_callerId d = Some a \<and> a \<noteq> []
      \<and> d_receiverIds d = Some (r # rs) \<and> connectedUsers s a = Some callerSocket
      \<and> status (getUserStatus r s) \<noteq> ''busy'' \<and> connectedUsers s r = Some receiverSocket
    \<longrightarrow> userStatus (call_initiate k d now s) r
          = Some \<lparr>status = ''ringing'', currentCallId = Some c\<rparr>
        \<and> map_option participants (map_of (activeCalls (call_initiate k d now s)) c) = Some [a, r])
   \<and> (map_of (activeCalls s) c' = Some cl \<and> connectedUsers s r' = Some receiverSocket'
        \<and> r' \<in> set (participants cl)
    \<longrightarrow> userStatus (call_accept k c' r' s) r'
          = Some \<lparr>status = ''in-call'', currentCallId = Some c'\<rparr>
        \<and> map_option participants (map_of (activeCalls (call_accept k c' r' s)) c')
          = Some (participants cl)
        \<and> r' \<in> set (participants cl))"
  by (auto simp: call_initiate_def getUserSocket_def Let_def AList.update_conv'
        call_accept_success new_call_def)

theorem handlers_establish_presence_witness:
  "connectedUsers (run registered_trace) ''A'' = Some 1
   \<and> connectedUsers (run registered_trace) ''B'' = Some 2
   \<and> status (getUserStatus ''B'' (run registered_trace)) \<noteq> ''busy''
   \<and> userStatus (call_initiate 1 (call_data ''c1'' ''A'' ''B'') 0 (run registered_trace)) ''B''
       = Some \<lparr>status = ''ringing'', currentCallId = Some ''c1''\<rparr>
   \<and> map_option participants
       (map_of (activeCalls (call_initiate 1 (call_data ''c1'' ''A'' ''B'') 0 (run registered_trace))) ''c1'')
       = Some [''A'', ''B'']
   \<and> map_of (activeCalls (run ringing_trace)) ''c1'' = Some ringing_call
   \<and> userStatus (call_accept 2 ''c1'' ''B'' (run ringing_trace)) ''B''
       = Some \<lparr>status = ''in-call'', currentCallId = Some ''c1''\<rparr>
   \<and> map_option participants (map_of (activeCalls (call_accept 2 ''c1'' ''B'' (run ringing_trace))) ''c1'')
       = Some [''A'', ''B'']"
proof -
  have a: "connectedUsers (run registered_trace) ''A'' = Some 1"
    and b: "connectedUsers (run registered_trace) ''B'' = Some 2"
    and nb: "status (getUserStatus ''B'' (run registered_trace)) \<noteq> ''busy''"
    by code_simp+
  note initiate =
    handlers_establish_presence [where d = "call_data ''c1'' ''A'' ''B''" and c = "''c1''"
      and a = "''A''" and r = "''B''" and rs = "[]" and s = "run registered_trace"
      and callerSocket = 1 and receiverSocket = 2 and k = 1 and now = 0, THEN conjunct1]
  note accept =
    handlers_establish_presence [where s = "run ringing_trace" and c' = "''c1''"
      and cl = ringing_call and r' = "''B''" and receiverSocket' = 2 and k = 2, THEN conjunct2]
  show ?thesis
    using a b nb ringing_state(1,3) initiate accept
    by (simp add: call_data_def ringing_call_def)
qed

text \<open>
  The caller A hangs up while c1 rings and the receiver B then accepts: A is
  \<open>in-call\<close> with \<open>currentCallId\<close> c1, and the participants of c1 are B alone.
\<close>

theorem caller_in_call_without_record:
  "userStatus (run hangup_accept_trace) ''A'' = Some \<lparr>status = ''in-call'', currentCallId = Some ''c1''\<rparr>
   \<and> map_option participants (map_of (activeCalls (run hangup_accept_trace)) ''c1'') = Some [''B'']"
  by code_simp

section \<open>The user directory\<close>

text \<open>
  Only \<open>register\<close>, a close and a new connection touch the sockets and the
  directory.
\<close>

lemma sweep_call_directory [simp]:
  "sockets (sweep_call now e s) = sockets s"
  "connectedUsers (sweep_call now e s) = connectedUsers s"
  by (simp_all add: sweep_call_def Let_def split: prod.splits option.splits)

lemma sweep_directory [simp]:
  "sockets (sweep now s) = sockets s"
  "connectedUsers (sweep now s) = connectedUsers s"
  by (simp_all add: sweep_def fold_field)

lemma timeout_fire_directory [simp]:
  "sockets (timeout_fire c s) = sockets s"
  "connectedUsers (timeout_fire c s) = connectedUsers s"
  by (simp_all add: timeout_fire_def Let_def split: option.splits)

lemma user_status_directory [simp]:
  "sockets (user_status k uo st s) = sockets s"
  "connectedUsers (user_status k uo st s) = connectedUsers s"
  by (simp_all add: user_status_def)

lemma call_initiate_directory [simp]:
  "sockets (call_initiate k d now s) = sockets s"
  "connectedUsers (call_initiate k d now s) = connectedUsers s"
  by (simp_all add: call_initiate_def Let_def getUserSocket_def split: option.splits)

lemma call_accept_directory [simp]:
  "sockets (call_accept k c r s) = sockets s"
  "connectedUsers (call_accept k c r s) = connectedUsers s"
  by (simp_all add: call_accept_def Let_def getUserSocket_def split: option.splits)

lemma call_reject_directory [simp]:
  "sockets (call_reject k c u s) = sockets s"
  "connectedUsers (call_reject k c u s) = connectedUsers s"
  by (simp_all add: call_reject_def Let_def getUserSocket_def split: option.splits)

lemma webrtc_offer_directory [simp]:
  "sockets (webrtc_offer k c frm t sdp now s) = sockets s"
  "connectedUsers (webrtc_offer k c frm t sdp now s) = connectedUsers s"
  by (simp_all add: webrtc_offer_def Let_def split: option.splits)

lemma webrtc_answer_directory [simp]:
  "sockets (webrtc_answer k c frm t sdp s) = sockets s"
  "connectedUsers (webrtc_answer k c frm t sdp s) = connectedUsers s"
  by (simp_all add: webrtc_answer_def Let_def split: option.splits)

lemma ice_candidate_directory [simp]:
  "sockets (ice_candidate k c frm t cand now s) = sockets s"
  "connectedUsers (ice_candidate k c frm t cand now s) = connectedUsers s"
  by (simp_all add: ice_candidate_def Let_def split: option.splits)

lemma call_end_directory [simp]:
  "sockets (call_end k c uo s) = sockets s"
  "connectedUsers (call_end k c uo s) = connectedUsers s"
  by (simp_all add: call_end_def Let_def split: option.splits)

lemma user_ready_directory [simp]:
  "sockets (user_ready k c u s) = sockets s"
  "connectedUsers (user_ready k c u s) = connectedUsers s"
  by (simp_all add: user_ready_def Let_def split: option.splits)

lemma directory_ok_same:
  assumes "directory_ok s" and "sockets s' = sockets s" and "connectedUsers s' = connectedUsers s"
  shows "directory_ok s'"
  using assms by (simp add: directory_ok_def)

lemma close_socket_sockets:
  "sockets (close_socket k s) =
     (if conn (sockets s k) = Open then (sockets s)(k := (sockets s k)\<lparr>conn := Closed\<rparr>)
      else sockets s)"
  by (simp add: close_socket_def)

lemma close_socket_connectedUsers:
  "connectedUsers (close_socket k s) =
     (if conn (sockets s k) = Open
      then (connectedUsers s)
             ((if truthy (userId (sockets s k)) then the (userId (sockets s k)) else ''unknown'')
                := None)
      else connectedUsers s)"
  by (simp add: close_socket_def on_disconnect_connectedUsers)

lemma directory_okD:
  assumes "directory_ok s" and "conn (sockets s k) = Open" and "userId (sockets s k) = Some u"
  shows "connectedUsers s u = Some k" and "u \<noteq> []"
  using assms by (simp_all add: directory_ok_def)

lemma directory_ok_unknown: "directory_ok s \<Longrightarrow> connectedUsers s ''unknown'' = None"
  by (simp add: directory_ok_def)

lemma directory_okI:
  assumes "\<And>k u. conn (sockets s k) = Open \<Longrightarrow> userId (sockets s k) = Some u
             \<Longrightarrow> connectedUsers s u = Some k \<and> u \<noteq> []"
    and "connectedUsers s ''unknown'' = None"
  shows "directory_ok s"
  unfolding directory_ok_def using assms by blast

lemma closing_key:
  assumes ok: "directory_ok s" and op: "conn (sockets s k) = Open"
  shows "connectedUsers s
           (if truthy (userId (sockets s k)) then the (userId (sockets s k)) else ''unknown'')
         \<in> {None, Some k}"
proof (cases "userId (sockets s k)")
  case None
  then show ?thesis using directory_ok_unknown [OF ok] by simp
next
  case (Some uk)
  then show ?thesis using directory_okD [OF ok op Some] by simp
qed

lemma close_socket_directory_ok:
  assumes ok: "directory_ok s"
  shows "directory_ok (close_socket k s)"
proof (cases "conn (sockets s k) = Open")
  case False
  then show ?thesis using ok by (simp add: close_socket_def)
next
  case True
  define u0 where
    "u0 = (if truthy (userId (sockets s k)) then the (userId (sockets s k)) else ''unknown'')"
  have so: "sockets (close_socket k s) = (sockets s)(k := (sockets s k)\<lparr>conn := Closed\<rparr>)"
    using True by (simp add: close_socket_sockets)
  have cu: "connectedUsers (close_socket k s) = (connectedUsers s)(u0 := None)"
    using True by (simp add: close_socket_connectedUsers u0_def)
  have own: "connectedUsers s u0 \<in> {None, Some k}"
    unfolding u0_def using ok True by (rule closing_key)
  show ?thesis
  proof (rule directory_okI)
    fix j u
    assume o: "conn (sockets (close_socket k s) j) = Open"
      and i: "userId (sockets (close_socket k s) j) = Some u"
    have jk: "j \<noteq> k" using o so by auto
    then have o': "conn (sockets s j) = Open" and i': "userId (sockets s j) = Some u"
      using o i so by simp_all
    have b: "connectedUsers s u = Some j" and ne: "u \<noteq> []"
      using directory_okD [OF ok o' i'] by simp_all
    have "u \<noteq> u0" using b own jk by auto
    then show "connectedUsers (close_socket k s) u = Some j \<and> u \<noteq> []"
      using b ne cu by simp
  next
    show "connectedUsers (close_socket k s) ''unknown'' = None"
      using cu directory_ok_unknown [OF ok] by simp
  qed
qed

lemma close_socket_not_open: "conn (sockets (close_socket k s) k) \<noteq> Open"
  by (simp add: close_socket_sockets)

lemma close_socket_only_removes:
  "connectedUsers (close_socket k s) u = Some j \<Longrightarrow> connectedUsers s u = Some j"
  by (simp add: close_socket_connectedUsers split: if_splits)

lemma replace_existing_directory_ok:
  assumes "directory_ok s"
  shows "directory_ok (replace_existing u k s)"
proof -
  have "directory_ok (emit e ev s)" for e ev
    by (simp add: directory_ok_same [OF assms])
  then show ?thesis
    using assms by (simp add: replace_existing_def close_socket_directory_ok split: option.splits)
qed

lemma replace_existing_only_removes:
  "connectedUsers (replace_existing u k s) u' = Some j \<Longrightarrow> connectedUsers s u' = Some j"
  by (auto simp: replace_existing_def getUserSocket_def split: option.splits if_splits
        dest: close_socket_only_removes)

lemma replace_existing_closes:
  assumes "connectedUsers s u = Some e" and "e \<noteq> k"
  shows "conn (sockets (replace_existing u k s) e) \<noteq> Open"
  using assms by (simp add: replace_existing_def getUserSocket_def close_socket_not_open)

lemma register_sockets:
  "truthy uo \<Longrightarrow> sockets (register k uo s) =
     (sockets (replace_existing (the uo) k s))
       (k := (sockets (replace_existing (the uo) k s) k)\<lparr>userId := uo\<rparr>)"
  by (cases uo) (simp_all add: register_def Let_def)

lemma register_connectedUsers:
  "truthy uo \<Longrightarrow> connectedUsers (register k uo s) =
     (connectedUsers (replace_existing (the uo) k s))(the uo \<mapsto> k)"
  by (simp add: register_def Let_def)

lemma register_directory_ok:
  assumes ok: "directory_ok s" and nu: "uo \<noteq> Some ''unknown''"
  shows "directory_ok (register k uo s)"
proof (cases "truthy uo")
  case False
  then show ?thesis using ok by (simp add: register_def directory_ok_def)
next
  case True
  then obtain u where uo: "uo = Some u" and u: "u \<noteq> []"
    by (cases uo) auto
  let ?s1 = "replace_existing u k s"
  have ok1: "directory_ok ?s1"
    using ok by (rule replace_existing_directory_ok)
  have other: "connectedUsers ?s1 u \<noteq> Some j" if "j \<noteq> k" and "conn (sockets ?s1 j) = Open" for j
  proof
    assume "connectedUsers ?s1 u = Some j"
    then have "connectedUsers s u = Some j" by (rule replace_existing_only_removes)
    then have "conn (sockets ?s1 j) \<noteq> Open" using that(1) by (rule replace_existing_closes)
    then show False using that(2) by simp
  qed
  have so: "sockets (register k uo s) = (sockets ?s1)(k := (sockets ?s1 k)\<lparr>userId := Some u\<rparr>)"
    using register_sockets [OF True, of k s] uo by simp
  have cu: "connectedUsers (register k uo s) = (connectedUsers ?s1)(u \<mapsto> k)"
    using register_connectedUsers [OF True, of k s] uo by simp
  show ?thesis
  proof (rule directory_okI)
    fix j v
    assume o: "conn (sockets (register k uo s) j) = Open"
      and i: "userId (sockets (register k uo s) j) = Some v"
    show "connectedUsers (register k uo s) v = Some j \<and> v \<noteq> []"
    proof (cases "j = k")
      case True
      then have "v = u" using i so by simp
      then show ?thesis using True cu u by simp
    next
      case False
      then have o': "conn (sockets ?s1 j) = Open" and i': "userId (sockets ?s1 j) = Some v"
        using o i so by simp_all
      have b: "connectedUsers ?s1 v = Some j" and ne: "v \<noteq> []"
        using directory_okD [OF ok1 o' i'] by simp_all
      have "v \<noteq> u" using other [OF False o'] b by auto
      then show ?thesis using b ne cu by simp
    qed
  next
    have "u \<noteq> ''unknown''" using nu uo by simp
    then show "connectedUsers (register k uo s) ''unknown'' = None"
      using cu directory_ok_unknown [OF ok1] by simp
  qed
qed

lemma handle_directory_ok:
  assumes "directory_ok s" and "\<not> registers_unknown (Event k now e)"
  shows "directory_ok (handle k now e s)"
proof (cases e)
  case (Register uo)
  then show ?thesis using assms by (simp add: register_directory_ok)
qed (simp_all add: directory_ok_same [OF assms(1)])

lemma step_directory_ok:
  assumes "directory_ok s" and "\<not> registers_unknown i"
  shows "directory_ok (step s i)"
proof (cases i)
  case (Connection k)
  then show ?thesis using assms(1) by (auto simp: directory_ok_def)
next
  case (Event k now e)
  then show ?thesis using assms by (simp add: handle_directory_ok)
next
  case (Close k)
  then show ?thesis using assms(1) by (simp add: close_socket_directory_ok)
next
  case (Timeout c)
  then show ?thesis by (simp add: directory_ok_same [OF assms(1)])
next
  case (Sweep now)
  then show ?thesis by (simp add: directory_ok_same [OF assms(1)])
qed

lemma run_snoc: "run (ins @ [i]) = step (run ins) i"
  by (simp add: run_def)

lemma run_directory_ok:
  assumes "\<not> list_ex registers_unknown ins"
  shows "directory_ok (run ins)"
  using assms
proof (induction ins rule: rev_induct)
  case Nil
  show ?case by (simp add: run_def init_def directory_ok_def)
next
  case (snoc i ins)
  then show ?case by (simp add: run_snoc step_directory_ok)
qed

text \<open>
  C7 (as amended). In every execution in which no socket registers under the
  user id \<open>'unknown'\<close>, a closing channel removes no binding of a user id to
  another channel: every user id that is not bound to the closing channel
  keeps its directory entry, in particular an id that a re-registration has
  bound to a newer channel (\<open>register\<close> closes the superseded channel before
  it installs the new one).
\<close>

theorem close_removes_only_own_binding:
  assumes "\<not> list_ex registers_unknown ins" and "connectedUsers (run ins) u \<noteq> Some k"
  shows "connectedUsers (step (run ins) (Close k)) u = connectedUsers (run ins) u"
proof (cases "conn (sockets (run ins) k) = Open")
  case False
  then show ?thesis by (simp add: close_socket_def)
next
  case True
  have ok: "directory_ok (run ins)" using assms(1) by (rule run_directory_ok)
  define u0 where
    "u0 = (if truthy (userId (sockets (run ins) k)) then the (userId (sockets (run ins) k))
           else ''unknown'')"
  have cu: "connectedUsers (close_socket k (run ins)) = (connectedUsers (run ins))(u0 := None)"
    using True by (simp add: close_socket_connectedUsers u0_def)
  have "connectedUsers (run ins) u0 \<in> {None, Some k}"
    unfolding u0_def using ok True by (rule closing_key)
  then have "u = u0 \<Longrightarrow> connectedUsers (run ins) u = None"
    using assms(2) by auto
  then show ?thesis using cu by auto
qed

text \<open>
  A re-registers on socket 2, which closes socket 1: a close of socket 1
  leaves A bound to socket 2. With A on socket 1 and B on socket 2, closing
  socket 1 leaves B bound to socket 2 and unbinds A.
\<close>

theorem close_removes_only_own_binding_witness:
  "\<not> list_ex registers_unknown reregister_trace
   \<and> connectedUsers (run reregister_trace) ''A'' = Some 2
   \<and> connectedUsers (step (run reregister_trace) (Close 1)) ''A'' = Some 2
   \<and> \<not> list_ex registers_unknown registered_trace
   \<and> connectedUsers (run registered_trace) ''B'' = Some 2
   \<and> connectedUsers (step (run registered_trace) (Close 1)) ''B'' = Some 2
   \<and> connectedUsers (step (run registered_trace) (Close 1)) ''A'' = None"
proof -
  have a: "\<not> list_ex registers_unknown reregister_trace"
    by (simp add: reregister_trace_def)
  have b: "connectedUsers (run reregister_trace) ''A'' = Some 2"
    by code_simp
  have c: "\<not> list_ex registers_unknown registered_trace"
    by (simp add: registered_trace_def)
  have d: "connectedUsers (run registered_trace) ''B'' = Some 2"
    by code_simp
  have e: "connectedUsers (step (run registered_trace) (Close 1)) ''A'' = None"
    by code_simp
  show ?thesis
    using a b c d e
      close_removes_only_own_binding [of reregister_trace "''A''" 1]
      close_removes_only_own_binding [of registered_trace "''B''" 1]
    by simp
qed

text \<open>
  Socket 1 registers as \<open>'unknown'\<close>. Socket 2 closes without having
  registered, which deletes the key \<open>'unknown'\<close>, so that socket 3 can register
  as \<open>'unknown'\<close> without socket 1 being closed. When socket 1 then closes, the
  binding of \<open>'unknown'\<close> to the newer socket 3 is removed.
\<close>

theorem close_removes_newer_binding:
  "connectedUsers (run unknown_trace) ''unknown'' = Some 3
   \<and> sockets (run unknown_trace) 1 = \<lparr>userId = Some ''unknown'', conn = Open\<rparr>
   \<and> connectedUsers (step (run unknown_trace) (Close 1)) ''unknown'' = None
   \<and> conn (sockets (step (run unknown_trace) (Close 1)) 3) = Open"
  by code_simp

section \<open>user\_status\<close>

text \<open>A user id stored on a socket came through the check of \<open>register\<close>: it is not empty.\<close>

lemma replace_existing_userId:
  "userId (sockets (replace_existing u k s) j) = userId (sockets s j)"
  by (simp add: replace_existing_def close_socket_sockets split: option.splits)

lemma register_userId:
  "userId (sockets (register k uo s) j) =
     (if truthy uo \<and> j = k then uo else userId (sockets s j))"
proof (cases "truthy uo")
  case True
  then show ?thesis by (simp add: register_sockets replace_existing_userId)
next
  case False
  then show ?thesis by (simp add: register_def)
qed

lemma handle_userId:
  assumes "\<And>j u. userId (sockets s j) = Some u \<Longrightarrow> u \<noteq> []"
    and "userId (sockets (handle k now e s) j) = Some u"
  shows "u \<noteq> []"
proof (cases e)
  case (Register uo)
  then show ?thesis using assms by (auto simp: register_userId split: if_splits)
qed (use assms in simp_all)

lemma step_userId:
  assumes "\<And>j u. userId (sockets s j) = Some u \<Longrightarrow> u \<noteq> []"
    and "userId (sockets (step s i) j) = Some u"
  shows "u \<noteq> []"
proof (cases i)
  case (Connection k)
  then show ?thesis using assms by (auto split: if_splits)
next
  case (Event k now e)
  then show ?thesis using assms handle_userId [of s k now e j u] by (auto split: if_splits)
next
  case (Close k)
  then show ?thesis using assms by (auto simp: close_socket_sockets split: if_splits)
next
  case (Timeout c)
  then show ?thesis using assms by simp
next
  case (Sweep now)
  then show ?thesis using assms by simp
qed

lemma run_userId: "userId (sockets (run ins) j) = Some u \<Longrightarrow> u \<noteq> []"
proof (induction ins arbitrary: j u rule: rev_induct)
  case Nil
  then show ?case by (simp add: run_def init_def)
next
  case (snoc i ins)
  show ?case
    using snoc.IH snoc.prems unfolding run_snoc by (rule step_userId)
qed

text \<open>
  C10. In every reachable state, on a socket registered as user \<open>u\<close> (its
  \<open>userId\<close> is \<open>u\<close>), a \<open>user_status\<close> event naming \<open>u\<close> replaces the presence
  entry of \<open>u\<close> by the supplied status, whatever string it is, with
  \<open>currentCallId\<close> reset to null, and touches nothing else; the same holds in
  any state in which the socket's user id is \<open>u\<close> and not empty. An event whose
  \<open>userId\<close> is missing or is not the socket's user id leaves the whole state
  as it is.
\<close>

theorem user_status_overwrites:
  "(userId (sockets (run ins) k) = Some u \<longrightarrow>
      user_status k (Some u) st (run ins) =
        (run ins)\<lparr>userStatus :=
                    (userStatus (run ins))(u \<mapsto> \<lparr>status = st, currentCallId = None\<rparr>)\<rparr>)
   \<and> (userId (sockets s k) = Some u \<and> u \<noteq> [] \<longrightarrow>
      user_status k (Some u) st s =
        s\<lparr>userStatus := (userStatus s)(u \<mapsto> \<lparr>status = st, currentCallId = None\<rparr>)\<rparr>)
   \<and> (uo = None \<or> uo \<noteq> userId (sockets s k) \<longrightarrow> user_status k uo st s = s)"
  using run_userId [of ins k u] by (auto simp: user_status_def setUserStatus_def)

text \<open>
  B, ringing in the live call c1, sets the status \<open>lunch\<close>; the same event
  without a user id, or naming A, changes nothing.
\<close>

theorem user_status_overwrites_witness:
  "userId (sockets (run ringing_trace) 2) = Some ''B''
   \<and> userStatus (run ringing_trace) ''B'' = Some \<lparr>status = ''ringing'', currentCallId = Some ''c1''\<rparr>
   \<and> userStatus (user_status 2 (Some ''B'') ''lunch'' (run ringing_trace)) ''B''
       = Some \<lparr>status = ''lunch'', currentCallId = None\<rparr>
   \<and> user_status 2 None ''lunch'' (run ringing_trace) = run ringing_trace
   \<and> user_status 2 (Some ''A'') ''lunch'' (run ringing_trace) = run ringing_trace"
proof -
  have reg: "userId (sockets (run ringing_trace) 2) = Some ''B''"
    by code_simp
  show ?thesis
    using reg ringing_state(5)
      user_status_overwrites [of ringing_trace 2 "''B''" "''lunch''" "run ringing_trace" None]
      user_status_overwrites [of ringing_trace 2 "''B''" "''lunch''" "run ringing_trace" "Some ''A''"]
    by simp
qed

end
